theory Spec2Isabelle
  imports Main "HOL-Library.Sublist"
begin

section \<open>Data model of \<^verbatim>\<open>src/apis/OpenIdMetadata.ts\<close>\<close>

text \<open>
  The interfaces at the end of the source file. A JSON field that the code itself tests
  for absence (\<^verbatim>\<open>!key.n || !key.e\<close>, \<^verbatim>\<open>!this.issuer\<close>), that is declared optional
  (\<^verbatim>\<open>endorsements?\<close>) or that is read unchecked from a reply body (\<^verbatim>\<open>issuer\<close>,
  \<^verbatim>\<open>jwks_uri\<close>, \<^verbatim>\<open>keys\<close>) is an \<open>option\<close>: \<open>None\<close> is JavaScript's \<^verbatim>\<open>undefined\<close>. Field names that would clash between
  two records carry a prefix (\<open>cfg_issuer\<close>, \<open>key_n\<close>, \<open>key_e\<close>, \<open>key_endorsements\<close>,
  \<open>body_keys\<close>). The elements of a key list are stored as they came (line 104) and read
  without a test (line 119), so an element is an \<open>option\<close> too: \<open>None\<close> is an element
  \<^verbatim>\<open>null\<close>, \<open>Some k\<close> a key object.
\<close>

record IOpenIdConfig =
  cfg_issuer :: "string option"
  authorization_endpoint :: string
  jwks_uri :: "string option"
  id_token_signing_alg_values_supported :: "string list"
  token_endpoint_auth_methods_supported :: "string list"

record IKey =
  kty :: string
  use :: string
  kid :: string
  x5t :: string
  key_n :: "string option"
  key_e :: "string option"
  x5c :: "string list"
  key_endorsements :: "string list option"

record IOpenIdMetadataKey =
  key :: string
  endorsements :: "string list option"

text \<open>The body of the second response: only its \<^verbatim>\<open>keys\<close> field is read (line 104).\<close>

record JwksBody =
  body_keys :: "IKey option list option"

text \<open>
  The private fields of the class \<^verbatim>\<open>OpenIdMetadata\<close>. \<^verbatim>\<open>keys\<close> and \<^verbatim>\<open>issuer\<close> have no
  initialiser, so they are \<^verbatim>\<open>undefined\<close> after construction; times are integer
  milliseconds as returned by \<^verbatim>\<open>Date.getTime()\<close>.
\<close>

record OpenIdMetadata =
  url :: string
  lastUpdated :: int
  keys :: "IKey option list option"
  issuer :: "string option"

definition new_OpenIdMetadata :: "string \<Rightarrow> OpenIdMetadata" where
  "new_OpenIdMetadata u = \<lparr>url = u, lastUpdated = 0, keys = None, issuer = None\<rparr>"

subsection \<open>Errors, the network and the trace of effects\<close>

text \<open>
  The three \<^verbatim>\<open>Error\<close> objects the file creates, the error object that the HTTP
  client passes to its callback (its text is the client's), and the \<^verbatim>\<open>TypeError\<close> that
  JavaScript throws when a property of \<^verbatim>\<open>null\<close> is read.
\<close>

datatype error =
    Transport string
  | FailedToLoadOpenIDConfig int
  | FailedToLoadKeys int
  | ConfigurationNotFetched
  | TypeError

text \<open>
  What the callback of \<^verbatim>\<open>request(options, (err, response, body) => ...)\<close> receives:
  \<open>err = None\<close> is a falsy \<^verbatim>\<open>err\<close>, \<open>body = None\<close> is a falsy body (empty or absent).
\<close>

record 'b reply =
  err :: "string option"
  statusCode :: int
  body :: "'b option"

text \<open>
  Everything one call of \<^verbatim>\<open>getKey\<close> reads from outside the object: the clock at line 43,
  the two replies, and the clock at line 103.
\<close>

record world =
  w_now :: int
  w_hop1 :: "IOpenIdConfig reply"
  w_hop2 :: "JwksBody reply"
  w_commit_now :: int

text \<open>What a call does to the outside: the GET requests it issues and what it logs.\<close>

datatype event =
    HttpGet "string option"
  | ConsoleError string error

text \<open>
  The two functions of the packages \<^verbatim>\<open>rsa-pem-from-mod-exp\<close> and \<^verbatim>\<open>base64url\<close>, which are
  not part of this repository: they are parameters of the model.
\<close>

record libs =
  getPem :: "string \<Rightarrow> string \<Rightarrow> string"
  toBase64 :: "string \<Rightarrow> string"

section \<open>\<^verbatim>\<open>String.prototype.replace\<close> with a string pattern\<close>

text \<open>
  \<^verbatim>\<open>s.replace(pat, repl)\<close> with a string \<^verbatim>\<open>pat\<close> replaces the first occurrence of \<^verbatim>\<open>pat\<close>
  only, and expands the patterns \<^verbatim>\<open>$$\<close>, \<^verbatim>\<open>$&\<close>, \<^verbatim>\<open>$`\<close> and \<^verbatim>\<open>$'\<close> of \<^verbatim>\<open>repl\<close>
  (ECMAScript's GetSubstitution; with no capture groups \<^verbatim>\<open>$1\<close> and the like stay as
  they are).
\<close>

fun split_first :: "string \<Rightarrow> string \<Rightarrow> (string \<times> string) option" where
  "split_first pat [] = (if pat = [] then Some ([], []) else None)"
| "split_first pat (c # cs) =
     (if prefix pat (c # cs) then Some ([], drop (length pat) (c # cs))
      else (case split_first pat cs of
              None \<Rightarrow> None
            | Some (pre, post) \<Rightarrow> Some (c # pre, post)))"

fun GetSubstitution :: "string \<Rightarrow> string \<Rightarrow> string \<Rightarrow> string \<Rightarrow> string" where
  "GetSubstitution matched pre post [] = []"
| "GetSubstitution matched pre post [c] = [c]"
| "GetSubstitution matched pre post (c # d # rest) =
     (if c = CHR ''$'' \<and> d = CHR ''$'' then CHR ''$'' # GetSubstitution matched pre post rest
      else if c = CHR ''$'' \<and> d = CHR ''&'' then matched @ GetSubstitution matched pre post rest
      else if c = CHR ''$'' \<and> d = CHR 0x60 then pre @ GetSubstitution matched pre post rest
      else if c = CHR ''$'' \<and> d = CHR 0x27 then post @ GetSubstitution matched pre post rest
      else c # GetSubstitution matched pre post (d # rest))"

definition js_replace :: "string \<Rightarrow> string \<Rightarrow> string \<Rightarrow> string" where
  "js_replace s pat repl =
     (case split_first pat s of
        None \<Rightarrow> s
      | Some (pre, post) \<Rightarrow> pre @ GetSubstitution pat pre post repl @ post)"

section \<open>The operations of the class\<close>

text \<open>
  \<^verbatim>\<open>findKey\<close> (lines 113 to 135). The loop runs over the cached list from index 0 and
  returns at the first record whose \<^verbatim>\<open>kid\<close> is the queried one. \<open>Inr None\<close> is the
  returned \<^verbatim>\<open>null\<close>, \<open>Inr (Some k)\<close> a returned key, and \<open>Inl TypeError\<close> the exception
  of \<^verbatim>\<open>this.keys[i].kid\<close> at an element \<^verbatim>\<open>null\<close>, which ends the loop. A string is falsy
  when it is absent or empty.
\<close>

fun findKey_loop :: "libs \<Rightarrow> IKey option list \<Rightarrow> string \<Rightarrow> error + IOpenIdMetadataKey option" where
  "findKey_loop L [] keyId = Inr None"
| "findKey_loop L (x # ks) keyId =
     (case x of
        None \<Rightarrow> Inl TypeError
      | Some k \<Rightarrow>
          if kid k = keyId then
            (case (key_n k, key_e k) of
               (Some n, Some e) \<Rightarrow>
                 if n = [] \<or> e = [] then Inr None
                 else
                   let modulus = toBase64 L n; exponent = e
                   in Inr (Some \<lparr>key = getPem L modulus exponent,
                                  endorsements = key_endorsements k\<rparr>)
             | _ \<Rightarrow> Inr None)
          else findKey_loop L ks keyId)"

definition findKey :: "libs \<Rightarrow> OpenIdMetadata \<Rightarrow> string \<Rightarrow> error + IOpenIdMetadataKey option" where
  "findKey L st keyId =
     (case keys st of
        None \<Rightarrow> Inr None
      | Some ks \<Rightarrow> findKey_loop L ks keyId)"

text \<open>
  Lines 79 to 81 and 98 to 100: the error the callback goes on with, or the truthy body.
  The status code is read only when the client reported no error.
\<close>

definition checked :: "(int \<Rightarrow> error) \<Rightarrow> 'b reply \<Rightarrow> error + 'b" where
  "checked mk r =
     (case err r of
        Some m \<Rightarrow> Inl (Transport m)
      | None \<Rightarrow>
          if statusCode r \<ge> 400 then Inl (mk (statusCode r))
          else (case body r of
                  None \<Rightarrow> Inl (mk (statusCode r))
                | Some b \<Rightarrow> Inr b))"

text \<open>
  \<^verbatim>\<open>refreshCache\<close> (lines 71 to 111): the value passed to \<^verbatim>\<open>cb\<close> (\<open>None\<close> is a falsy
  \<^verbatim>\<open>err\<close>), the object afterwards, and the requests issued.
\<close>

definition refreshCache :: "world \<Rightarrow> OpenIdMetadata \<Rightarrow> error option \<times> OpenIdMetadata \<times> event list" where
  "refreshCache w st =
     (case checked FailedToLoadOpenIDConfig (w_hop1 w) of
        Inl e \<Rightarrow> (Some e, st, [HttpGet (Some (url st))])
      | Inr openIdConfig \<Rightarrow>
          let st1 = st\<lparr>issuer := cfg_issuer openIdConfig\<rparr>;
              tr = [HttpGet (Some (url st)), HttpGet (jwks_uri openIdConfig)]
          in (case checked FailedToLoadKeys (w_hop2 w) of
                Inl e \<Rightarrow> (Some e, st1, tr)
              | Inr b \<Rightarrow>
                  (None, st1\<lparr>lastUpdated := w_commit_now w, keys := body_keys b\<rparr>, tr)))"

text \<open>
  \<^verbatim>\<open>getKey\<close> (lines 41 to 60): the outcome, the object afterwards, and the trace of the
  call. The outcome \<open>Inr v\<close> is the call \<^verbatim>\<open>cb(v)\<close>; the outcome \<open>Inl TypeError\<close> is the
  exception leaving \<^verbatim>\<open>findKey\<close> at line 52 or 57, after which \<^verbatim>\<open>cb\<close> is never called:
  nothing in the file catches it.
\<close>

definition getKey ::
  "libs \<Rightarrow> world \<Rightarrow> OpenIdMetadata \<Rightarrow> string \<Rightarrow>
     (error + IOpenIdMetadataKey option) \<times> OpenIdMetadata \<times> event list" where
  "getKey L w st keyId =
     (let now = w_now w in
      if lastUpdated st < now - 1000 * 60 * 60 * 24 * 5 then
        (case refreshCache w st of
           (e, st', tr) \<Rightarrow>
             (findKey L st' keyId, st',
              (case e of
                 Some er \<Rightarrow> tr @ [ConsoleError (url st) er]
               | None \<Rightarrow> tr)))
      else (findKey L st keyId, st, []))"

text \<open>\<^verbatim>\<open>getIssuer\<close> (lines 64 to 69): \<open>Inl\<close> is the thrown error.\<close>

definition getIssuer :: "OpenIdMetadata \<Rightarrow> string \<Rightarrow> error + string" where
  "getIssuer st tenantId =
     (case issuer st of
        None \<Rightarrow> Inl ConfigurationNotFetched
      | Some t \<Rightarrow>
          if t = [] then Inl ConfigurationNotFetched
          else Inr (js_replace t ''{tenantid}'' tenantId))"

section \<open>Outcomes of a request and concrete inputs\<close>

text \<open>
  The two outcomes of lines 79 to 83 (and 98 to 102) in the words of the callback's
  arguments: a hop fails on a transport error, on a status of 400 or more, or on a falsy
  body; otherwise it succeeds with its body.
\<close>

definition hop_ok :: "'b reply \<Rightarrow> 'b \<Rightarrow> bool" where
  "hop_ok r b = (err r = None \<and> statusCode r < 400 \<and> body r = Some b)"

definition hop_fails :: "'b reply \<Rightarrow> bool" where
  "hop_fails r = (err r \<noteq> None \<or> statusCode r \<ge> 400 \<or> body r = None)"

text \<open>Concrete inputs on which the results below are evaluated.\<close>

definition sample_libs :: libs where
  "sample_libs = \<lparr>getPem = (\<lambda>m e. ''PEM '' @ m @ '' '' @ e), toBase64 = (\<lambda>s. s)\<rparr>"

definition rsa_key :: IKey where
  "rsa_key = \<lparr>kty = ''RSA'', use = ''sig'', kid = ''abc'', x5t = ''t1'',
     key_n = Some ''AQAB'', key_e = Some ''AQAB'', x5c = [], key_endorsements = None\<rparr>"

definition ec_key :: IKey where
  "ec_key = \<lparr>kty = ''EC'', use = ''sig'', kid = ''abc'', x5t = ''t2'',
     key_n = None, key_e = None, x5c = [], key_endorsements = None\<rparr>"

definition sample_config :: "string \<Rightarrow> IOpenIdConfig" where
  "sample_config iss =
     \<lparr>cfg_issuer = Some iss, authorization_endpoint = ''https://login/authorize'',
      jwks_uri = Some ''https://login/keys'', id_token_signing_alg_values_supported = [''RS256''],
      token_endpoint_auth_methods_supported = []\<rparr>"

definition ok_reply :: "'b \<Rightarrow> 'b reply" where
  "ok_reply b = \<lparr>err = None, statusCode = 200, body = Some b\<rparr>"

definition status_reply :: "int \<Rightarrow> 'b reply" where
  "status_reply c = \<lparr>err = None, statusCode = c, body = None\<rparr>"

definition world_at :: "int \<Rightarrow> IOpenIdConfig reply \<Rightarrow> JwksBody reply \<Rightarrow> world" where
  "world_at t r1 r2 = \<lparr>w_now = t, w_hop1 = r1, w_hop2 = r2, w_commit_now = t + 250\<rparr>"

definition discovery_down :: world where
  "discovery_down =
     world_at 500000000 (status_reply 503) (ok_reply \<lparr>body_keys = Some [Some rsa_key]\<rparr>)"

definition jwks_down :: world where
  "jwks_down =
     world_at 500000000 (ok_reply (sample_config ''https://login/{tenantid}/v2'')) (status_reply 500)"

definition empty_issuer_jwks_down :: world where
  "empty_issuer_jwks_down = world_at 500000000 (ok_reply (sample_config [])) (status_reply 500)"

definition all_up :: "int \<Rightarrow> world" where
  "all_up t =
     world_at t (ok_reply (sample_config ''https://login/{tenantid}/v2''))
       (ok_reply \<lparr>body_keys = Some [Some rsa_key]\<rparr>)"

definition null_key_jwks :: world where
  "null_key_jwks =
     world_at 500000000 (ok_reply (sample_config ''https://login/{tenantid}/v2''))
       (ok_reply \<lparr>body_keys = Some [None]\<rparr>)"

definition never_fetched :: OpenIdMetadata where
  "never_fetched = new_OpenIdMetadata ''https://login/discovery''"

definition loaded_state :: "IKey option list \<Rightarrow> string \<Rightarrow> OpenIdMetadata" where
  "loaded_state ks iss =
     \<lparr>url = ''https://login/discovery'', lastUpdated = 1000, keys = Some ks, issuer = Some iss\<rparr>"

lemmas sample_defs =
  sample_libs_def rsa_key_def ec_key_def sample_config_def ok_reply_def status_reply_def
  world_at_def discovery_down_def jwks_down_def empty_issuer_jwks_down_def all_up_def
  null_key_jwks_def
  never_fetched_def new_OpenIdMetadata_def loaded_state_def

section \<open>Facts about the model\<close>

subsection \<open>The check of a reply\<close>

lemma checked_ok: "hop_ok r b \<Longrightarrow> checked mk r = Inr b"
  by (simp add: hop_ok_def checked_def)

lemma checked_fails: "hop_fails r \<Longrightarrow> \<exists>e. checked mk r = Inl e"
  by (auto simp: hop_fails_def checked_def split: option.splits)

lemma checked_Inr: "checked mk r = Inr b \<Longrightarrow> hop_ok r b"
  by (auto simp: hop_ok_def checked_def split: option.splits if_splits)

lemma checked_Inl: "checked mk r = Inl e \<Longrightarrow> hop_fails r"
  by (auto simp: hop_fails_def checked_def split: option.splits if_splits)

lemma hop_fails_iff: "hop_fails r \<longleftrightarrow> (\<forall>b. \<not> hop_ok r b)"
  by (auto simp: hop_fails_def hop_ok_def)

subsection \<open>The three ways a refresh can go\<close>

lemma refreshCache_hop1_fails:
  assumes "hop_fails (w_hop1 w)"
  shows "\<exists>e. refreshCache w st = (Some e, st, [HttpGet (Some (url st))])"
proof -
  from assms obtain e where "checked FailedToLoadOpenIDConfig (w_hop1 w) = Inl e"
    using checked_fails by blast
  then show ?thesis by (simp add: refreshCache_def)
qed

lemma refreshCache_hop2_fails:
  assumes "hop_ok (w_hop1 w) cfg" and "hop_fails (w_hop2 w)"
  shows "\<exists>e. refreshCache w st =
           (Some e, st\<lparr>issuer := cfg_issuer cfg\<rparr>, [HttpGet (Some (url st)), HttpGet (jwks_uri cfg)])"
proof -
  have 1: "checked FailedToLoadOpenIDConfig (w_hop1 w) = Inr cfg"
    using assms(1) by (rule checked_ok)
  from assms(2) obtain e where "checked FailedToLoadKeys (w_hop2 w) = Inl e"
    using checked_fails by blast
  with 1 show ?thesis by (simp add: refreshCache_def)
qed

lemma refreshCache_both_ok:
  assumes "hop_ok (w_hop1 w) cfg" and "hop_ok (w_hop2 w) b"
  shows "refreshCache w st =
           (None, st\<lparr>issuer := cfg_issuer cfg, lastUpdated := w_commit_now w, keys := body_keys b\<rparr>,
            [HttpGet (Some (url st)), HttpGet (jwks_uri cfg)])"
  using checked_ok [OF assms(1)] checked_ok [OF assms(2)] by (simp add: refreshCache_def)

lemma refreshCache_cases:
  obtains (hop1) "hop_fails (w_hop1 w)"
  | (hop2) cfg where "hop_ok (w_hop1 w) cfg" "hop_fails (w_hop2 w)"
  | (ok) cfg b where "hop_ok (w_hop1 w) cfg" "hop_ok (w_hop2 w) b"
  by (meson hop_fails_iff)

lemma refreshCache_failure_frame:
  assumes "hop_fails (w_hop1 w) \<or> hop_fails (w_hop2 w)" and "refreshCache w st = (e, st', tr)"
  shows "e \<noteq> None \<and> keys st' = keys st \<and> lastUpdated st' = lastUpdated st \<and> url st' = url st"
proof (cases rule: refreshCache_cases [of w])
  case hop1
  from refreshCache_hop1_fails [OF hop1, of st] assms(2) show ?thesis by auto
next
  case (hop2 cfg)
  from refreshCache_hop2_fails [OF hop2, of st] assms(2) show ?thesis by auto
next
  case (ok cfg b)
  with assms(1) show ?thesis by (auto simp: hop_fails_iff)
qed

lemma refreshCache_error_iff:
  assumes "refreshCache w st = (e, st', tr)"
  shows "e \<noteq> None \<longleftrightarrow> hop_fails (w_hop1 w) \<or> hop_fails (w_hop2 w)"
proof (cases rule: refreshCache_cases [of w])
  case hop1
  from refreshCache_hop1_fails [OF hop1, of st] assms hop1 show ?thesis by auto
next
  case (hop2 cfg)
  from refreshCache_hop2_fails [OF hop2, of st] assms hop2 show ?thesis by auto
next
  case (ok cfg b)
  from refreshCache_both_ok [OF ok, of st] assms ok show ?thesis by (auto simp: hop_fails_iff)
qed

subsection \<open>The two branches of \<^verbatim>\<open>getKey\<close>\<close>

lemma getKey_fresh:
  assumes "\<not> lastUpdated st < w_now w - 432000000"
  shows "getKey L w st keyId = (findKey L st keyId, st, [])"
  using assms by (simp add: getKey_def)

lemma getKey_stale:
  assumes "lastUpdated st < w_now w - 432000000" and "refreshCache w st = (e, st', tr)"
  shows "getKey L w st keyId =
           (findKey L st' keyId, st',
            tr @ (case e of Some er \<Rightarrow> [ConsoleError (url st) er] | None \<Rightarrow> []))"
  using assms by (simp add: getKey_def split: option.splits)

lemma getKey_cases:
  obtains (fresh) "\<not> lastUpdated st < w_now w - 432000000"
      "getKey L w st keyId = (findKey L st keyId, st, [])"
  | (stale) e s t where "lastUpdated st < w_now w - 432000000" "refreshCache w st = (e, s, t)"
      "getKey L w st keyId =
         (findKey L s keyId, s, t @ (case e of Some er \<Rightarrow> [ConsoleError (url st) er] | None \<Rightarrow> []))"
proof (cases "lastUpdated st < w_now w - 432000000")
  case True
  obtain e s t where "refreshCache w st = (e, s, t)" by (cases "refreshCache w st") auto
  with True getKey_stale [OF True this] stale show ?thesis by blast
next
  case False
  with getKey_fresh [OF False] fresh show ?thesis by blast
qed

lemma getKey_result:
  assumes "getKey L w st keyId = (r, st', tr)"
  shows "r = findKey L st' keyId"
  using assms by (cases rule: getKey_cases [of st w L keyId]) auto

lemma getKey_hop1_fails_issuer:
  assumes "hop_fails (w_hop1 w)" and "getKey L w st keyId = (r, st', tr)"
  shows "issuer st' = issuer st"
proof (cases rule: getKey_cases [of st w L keyId])
  case fresh
  with assms(2) show ?thesis by simp
next
  case (stale e s t)
  with refreshCache_hop1_fails [OF assms(1), of st] assms(2) show ?thesis by auto
qed

subsection \<open>The scan of the cached keys\<close>

text \<open>
  A cache of key objects is a list \<open>map Some ks\<close>. On it the scan passes the records with
  another \<^verbatim>\<open>kid\<close> and never throws; an element \<^verbatim>\<open>null\<close> reached by the scan throws.
\<close>

lemma findKey_loop_no_match:
  "keyId \<notin> kid ` set ks \<Longrightarrow> findKey_loop L (map Some ks) keyId = Inr None"
  by (induction ks) auto

lemma findKey_loop_skip:
  "\<forall>k'\<in>set ks1. kid k' \<noteq> keyId \<Longrightarrow>
     findKey_loop L (map Some ks1 @ ks2) keyId = findKey_loop L ks2 keyId"
  by (induction ks1) auto


lemma findKey_loop_rsa:
  assumes "kid k = keyId" and "key_n k = Some n" and "key_e k = Some e" and "n \<noteq> []" and "e \<noteq> []"
  shows "findKey_loop L (Some k # ks) keyId =
           Inr (Some \<lparr>key = getPem L (toBase64 L n) e, endorsements = key_endorsements k\<rparr>)"
  using assms by simp

lemma findKey_loop_null:
  "\<forall>k'\<in>set ks1. kid k' \<noteq> keyId \<Longrightarrow>
     findKey_loop L (map Some ks1 @ None # ks2) keyId = Inl TypeError"
  by (simp add: findKey_loop_skip)

lemma findKey_loop_records_never_throw:
  "\<exists>v. findKey_loop L (map Some ks) keyId = Inr v"
  by (induction ks) (auto split: option.splits)

text \<open>
  On a cache that holds key objects only, \<^verbatim>\<open>getKey\<close> hands a value to its callback, and
  that value is \<^verbatim>\<open>null\<close> when no record has the queried \<^verbatim>\<open>kid\<close>; without a key list
  it is \<^verbatim>\<open>null\<close> as well. A failed refresh is logged as the last effect of the call, and
  the search still runs on the cache as the refresh left it.
\<close>

lemma getKey_on_records:
  assumes "getKey L w st keyId = (r, st', tr)"
  shows "(keys st' = None \<longrightarrow> r = Inr None)
       \<and> (\<forall>ks. keys st' = Some (map Some ks) \<longrightarrow> (\<exists>v. r = Inr v))
       \<and> (\<forall>ks. keys st' = Some (map Some ks) \<and> keyId \<notin> kid ` set ks \<longrightarrow> r = Inr None)
       \<and> (keys st = None \<and> (hop_fails (w_hop1 w) \<or> hop_fails (w_hop2 w)) \<longrightarrow> r = Inr None)
       \<and> (\<forall>e s t. lastUpdated st < w_now w - 432000000 \<and> refreshCache w st = (Some e, s, t) \<longrightarrow>
             r = findKey L s keyId \<and> st' = s \<and> tr = t @ [ConsoleError (url st) e])"
proof -
  have r: "r = findKey L st' keyId" using assms by (rule getKey_result)
  have a: "keys st' = None \<longrightarrow> r = Inr None" by (simp add: r findKey_def)
  have a': "\<forall>ks. keys st' = Some (map Some ks) \<longrightarrow> (\<exists>v. r = Inr v)"
  proof (intro allI impI)
    fix ks assume "keys st' = Some (map Some ks)"
    then have "r = findKey_loop L (map Some ks) keyId" by (simp add: r findKey_def)
    with findKey_loop_records_never_throw [of L ks keyId] show "\<exists>v. r = Inr v"
      by simp
  qed
  have b: "\<forall>ks. keys st' = Some (map Some ks) \<and> keyId \<notin> kid ` set ks \<longrightarrow> r = Inr None"
    by (simp add: r findKey_def findKey_loop_no_match)
  have c: "keys st = None \<and> (hop_fails (w_hop1 w) \<or> hop_fails (w_hop2 w)) \<longrightarrow> r = Inr None"
  proof (cases rule: getKey_cases [of st w L keyId])
    case fresh
    with assms have "st' = st" by simp
    with a show ?thesis by simp
  next
    case (stale e s t)
    with assms have "st' = s" by simp
    with refreshCache_failure_frame [OF _ stale(2)] a show ?thesis by auto
  qed
  have d: "\<forall>e s t. lastUpdated st < w_now w - 432000000 \<and> refreshCache w st = (Some e, s, t) \<longrightarrow>
             r = findKey L s keyId \<and> st' = s \<and> tr = t @ [ConsoleError (url st) e]"
  proof (intro allI impI)
    fix e s t
    assume h: "lastUpdated st < w_now w - 432000000 \<and> refreshCache w st = (Some e, s, t)"
    then have "getKey L w st keyId = (findKey L s keyId, s, t @ [ConsoleError (url st) e])"
      using getKey_stale [of st w "Some e" s t L keyId] by simp
    with assms show "r = findKey L s keyId \<and> st' = s \<and> tr = t @ [ConsoleError (url st) e]"
      by auto
  qed
  from a a' b c d show ?thesis by blast
qed

subsection \<open>Replacement of the first occurrence\<close>

lemma GetSubstitution_no_dollar:
  "CHR ''$'' \<notin> set repl \<Longrightarrow> GetSubstitution m pre post repl = repl"
  by (induction m pre post repl rule: GetSubstitution.induct) auto

lemma split_first_sound:
  "split_first pat s = Some (pre, post) \<Longrightarrow> s = pre @ pat @ post"
proof (induction s arbitrary: pre)
  case Nil
  then show ?case by (simp split: if_splits)
next
  case (Cons c cs)
  show ?case
  proof (cases "prefix pat (c # cs)")
    case True
    then obtain zs where zs: "c # cs = pat @ zs" by (auto simp: prefix_def)
    from True Cons.prems have "pre = []" "post = drop (length pat) (c # cs)" by simp_all
    with zs show ?thesis by simp
  next
    case False
    with Cons.prems obtain pre' where "split_first pat cs = Some (pre', post)" "pre = c # pre'"
      by (auto split: option.splits)
    with Cons.IH [of pre'] show ?thesis by simp
  qed
qed

lemma split_first_complete:
  "\<forall>i<length pre. \<not> prefix pat (drop i (pre @ pat @ post))
     \<Longrightarrow> split_first pat (pre @ pat @ post) = Some (pre, post)"
proof (induction pre)
  case Nil
  show ?case
  proof (cases "pat @ post")
    case Nil
    then show ?thesis by simp
  next
    case (Cons a list)
    have "prefix pat (pat @ post)" by simp
    moreover have "drop (length pat) (pat @ post) = post" by simp
    ultimately show ?thesis unfolding Cons append_Nil by simp
  qed
next
  case (Cons c pre)
  from Cons.prems have 0: "\<not> prefix pat (c # pre @ pat @ post)" by force
  have "\<forall>i<length pre. \<not> prefix pat (drop i (pre @ pat @ post))"
  proof (intro allI impI)
    fix i assume "i < length pre"
    then have "Suc i < length (c # pre)" by simp
    with Cons.prems have "\<not> prefix pat (drop (Suc i) ((c # pre) @ pat @ post))" by blast
    then show "\<not> prefix pat (drop i (pre @ pat @ post))" by simp
  qed
  with Cons.IH have "split_first pat (pre @ pat @ post) = Some (pre, post)" by simp
  with 0 show ?case by simp
qed

lemma js_replace_keeps_rest:
  assumes "\<forall>i<length pre. \<not> prefix pat (drop i (pre @ pat @ post))"
  shows "js_replace (pre @ pat @ post) pat repl = pre @ GetSubstitution pat pre post repl @ post"
  using split_first_complete [OF assms] by (simp add: js_replace_def)

lemma js_replace_first_literal:
  assumes "\<forall>i<length pre. \<not> prefix pat (drop i (pre @ pat @ post))"
    and "CHR ''$'' \<notin> set repl"
  shows "js_replace (pre @ pat @ post) pat repl = pre @ repl @ post"
  using js_replace_keeps_rest [OF assms(1)] GetSubstitution_no_dollar [OF assms(2)] by simp

subsection \<open>\<^verbatim>\<open>getIssuer\<close>\<close>

lemma getIssuer_throws_iff:
  "getIssuer st tenantId = Inl e \<longleftrightarrow>
     e = ConfigurationNotFetched \<and> (issuer st = None \<or> issuer st = Some [])"
  by (auto simp: getIssuer_def split: option.splits)

lemma getIssuer_new: "getIssuer (new_OpenIdMetadata u) tenantId = Inl ConfigurationNotFetched"
  by (simp add: getIssuer_def new_OpenIdMetadata_def)

text \<open>
  For a tenant identifier without \<^verbatim>\<open>$\<close> the first occurrence of the placeholder, and only
  that one, is replaced by the identifier.
\<close>

lemma getIssuer_substitutes_first:
  assumes "issuer st = Some (pre @ ''{tenantid}'' @ post)"
    and "\<forall>i<length pre. \<not> prefix ''{tenantid}'' (drop i (pre @ ''{tenantid}'' @ post))"
    and "CHR ''$'' \<notin> set tenantId"
  shows "getIssuer st tenantId = Inr (pre @ tenantId @ post)"
  using js_replace_first_literal [OF assms(2,3)] assms(1) by (simp add: getIssuer_def)

text \<open>The scenario of the specification's section 8.\<close>

lemma scenario_issuer:
  "getIssuer (loaded_state [Some rsa_key] ''https://login/{tenantid}/v2'') ''tenant1''
     = Inr ''https://login/tenant1/v2''"
  by (simp add: getIssuer_def loaded_state_def js_replace_def)

lemma scenario_keys:
  "findKey sample_libs (loaded_state [Some rsa_key] iss) ''abc''
     = Inr (Some \<lparr>key = ''PEM AQAB AQAB'', endorsements = None\<rparr>)"
  "findKey sample_libs (loaded_state [Some rsa_key] iss) ''xyz'' = Inr None"
  by (simp_all add: findKey_def sample_defs)

section \<open>The claims\<close>

subsection \<open>C1: the first hop succeeds, the second fails\<close>

text \<open>
  C1, as amended. In a refresh whose first hop succeeds with body \<open>cfg\<close> and whose second
  hop fails, the callback receives an error, the cached issuer becomes the \<^verbatim>\<open>issuer\<close>
  field of \<open>cfg\<close>, and \<^verbatim>\<open>keys\<close> and \<^verbatim>\<open>lastUpdated\<close> keep their values. A later
  \<^verbatim>\<open>getIssuer\<close> returns a string instead of throwing when that field is a non-empty
  string.
\<close>

theorem refresh_hop2_failure_commits_issuer:
  assumes "hop_ok (w_hop1 w) cfg" and "hop_fails (w_hop2 w)"
    and "refreshCache w st = (e, st', tr)"
  shows "e \<noteq> None \<and> issuer st' = cfg_issuer cfg
       \<and> keys st' = keys st \<and> lastUpdated st' = lastUpdated st
       \<and> (\<forall>t. cfg_issuer cfg = Some t \<and> t \<noteq> [] \<longrightarrow>
            getIssuer st' tenantId = Inr (js_replace t ''{tenantid}'' tenantId))"
  using refreshCache_hop2_fails [OF assms(1,2), of st] assms(3)
  by (auto simp: getIssuer_def)

text \<open>
  C1, witness: the discovery document arrives, the key set answers with status 500, on an
  object that never fetched anything.
\<close>

theorem refresh_hop2_failure_commits_issuer_witness:
  "hop_ok (w_hop1 jwks_down) (sample_config ''https://login/{tenantid}/v2'')
   \<and> hop_fails (w_hop2 jwks_down)
   \<and> refreshCache jwks_down never_fetched =
       (Some (FailedToLoadKeys 500),
        never_fetched\<lparr>issuer := Some ''https://login/{tenantid}/v2''\<rparr>,
        [HttpGet (Some ''https://login/discovery''), HttpGet (Some ''https://login/keys'')])
   \<and> keys (never_fetched\<lparr>issuer := Some ''https://login/{tenantid}/v2''\<rparr>) = keys never_fetched
   \<and> lastUpdated (never_fetched\<lparr>issuer := Some ''https://login/{tenantid}/v2''\<rparr>)
       = lastUpdated never_fetched
   \<and> getIssuer (never_fetched\<lparr>issuer := Some ''https://login/{tenantid}/v2''\<rparr>) ''tenant1''
       = Inr ''https://login/tenant1/v2''"
proof -
  have h1: "hop_ok (w_hop1 jwks_down) (sample_config ''https://login/{tenantid}/v2'')"
    by (simp add: hop_ok_def sample_defs)
  have h2: "hop_fails (w_hop2 jwks_down)"
    by (simp add: hop_fails_def sample_defs)
  have h3: "refreshCache jwks_down never_fetched =
       (Some (FailedToLoadKeys 500),
        never_fetched\<lparr>issuer := Some ''https://login/{tenantid}/v2''\<rparr>,
        [HttpGet (Some ''https://login/discovery''), HttpGet (Some ''https://login/keys'')])"
    by (simp add: refreshCache_def checked_def sample_defs)
  have h4: "js_replace ''https://login/{tenantid}/v2'' ''{tenantid}'' ''tenant1''
              = ''https://login/tenant1/v2''"
    by (simp add: js_replace_def)
  from refresh_hop2_failure_commits_issuer [OF h1 h2 h3, of "''tenant1''"] h1 h2 h3 h4
  show ?thesis by (simp add: sample_config_def)
qed

text \<open>
  C1, counterexample: the first hop succeeds with the issuer \<^verbatim>\<open>""\<close>, the second fails,
  and \<^verbatim>\<open>getIssuer\<close> on the object after the refresh still throws.
\<close>

theorem refresh_hop2_failure_counterexample:
  "hop_ok (w_hop1 empty_issuer_jwks_down) (sample_config [])
   \<and> hop_fails (w_hop2 empty_issuer_jwks_down)
   \<and> getIssuer (fst (snd (refreshCache empty_issuer_jwks_down never_fetched))) ''tenant1''
       = Inl ConfigurationNotFetched"
  by (simp add: hop_ok_def hop_fails_def refreshCache_def checked_def getIssuer_def sample_defs)

subsection \<open>C2: both hops succeed\<close>

text \<open>
  C2. When both hops succeed, \<^verbatim>\<open>keys\<close> is the \<^verbatim>\<open>keys\<close> field of the second body as it
  came, and \<^verbatim>\<open>lastUpdated\<close> is the clock read at line 103, which is not before the clock
  read by \<^verbatim>\<open>getKey\<close> when it started the refresh (the clock is taken not to run
  backwards in between). When either hop fails, \<^verbatim>\<open>lastUpdated\<close> keeps its value.
\<close>

theorem refresh_success_replaces_keys:
  assumes "w_now w \<le> w_commit_now w" and "refreshCache w st = (e, st', tr)"
  shows "(\<forall>cfg b. hop_ok (w_hop1 w) cfg \<and> hop_ok (w_hop2 w) b \<longrightarrow>
            keys st' = body_keys b \<and> lastUpdated st' = w_commit_now w \<and> w_now w \<le> lastUpdated st')
       \<and> (hop_fails (w_hop1 w) \<or> hop_fails (w_hop2 w) \<longrightarrow> lastUpdated st' = lastUpdated st)"
proof (intro conjI allI impI)
  fix cfg b
  assume "hop_ok (w_hop1 w) cfg \<and> hop_ok (w_hop2 w) b"
  then have ok: "hop_ok (w_hop1 w) cfg" "hop_ok (w_hop2 w) b" by simp_all
  from refreshCache_both_ok [OF ok, of st] assms(2)
  have st': "st' = st\<lparr>issuer := cfg_issuer cfg, lastUpdated := w_commit_now w, keys := body_keys b\<rparr>"
    by simp
  show "keys st' = body_keys b" by (simp add: st')
  show "lastUpdated st' = w_commit_now w" by (simp add: st')
  show "w_now w \<le> lastUpdated st'" using assms(1) by (simp add: st')
next
  assume "hop_fails (w_hop1 w) \<or> hop_fails (w_hop2 w)"
  from refreshCache_failure_frame [OF this assms(2)]
  show "lastUpdated st' = lastUpdated st" by simp
qed

text \<open>
  C2, witness: a refresh with both hops answering, and one whose second hop fails, both on
  an object that never fetched anything.
\<close>

theorem refresh_success_replaces_keys_witness:
  "(w_now (all_up 500000000) \<le> w_commit_now (all_up 500000000)
    \<and> hop_ok (w_hop1 (all_up 500000000)) (sample_config ''https://login/{tenantid}/v2'')
    \<and> hop_ok (w_hop2 (all_up 500000000)) \<lparr>body_keys = Some [Some rsa_key]\<rparr>
    \<and> refreshCache (all_up 500000000) never_fetched =
        (None,
         \<lparr>url = ''https://login/discovery'', lastUpdated = 500000250, keys = Some [Some rsa_key],
          issuer = Some ''https://login/{tenantid}/v2''\<rparr>,
         [HttpGet (Some ''https://login/discovery''), HttpGet (Some ''https://login/keys'')]))
   \<and> (w_now jwks_down \<le> w_commit_now jwks_down
    \<and> hop_fails (w_hop2 jwks_down)
    \<and> lastUpdated (fst (snd (refreshCache jwks_down never_fetched))) = lastUpdated never_fetched)"
proof -
  have a1: "w_now (all_up 500000000) \<le> w_commit_now (all_up 500000000)"
    by (simp add: sample_defs)
  have a2: "refreshCache (all_up 500000000) never_fetched =
        (None,
         \<lparr>url = ''https://login/discovery'', lastUpdated = 500000250, keys = Some [Some rsa_key],
          issuer = Some ''https://login/{tenantid}/v2''\<rparr>,
         [HttpGet (Some ''https://login/discovery''), HttpGet (Some ''https://login/keys'')])"
    by (simp add: refreshCache_def checked_def sample_defs)
  have a3: "hop_ok (w_hop1 (all_up 500000000)) (sample_config ''https://login/{tenantid}/v2'')"
    "hop_ok (w_hop2 (all_up 500000000)) \<lparr>body_keys = Some [Some rsa_key]\<rparr>"
    by (simp_all add: hop_ok_def sample_defs)
  have b1: "w_now jwks_down \<le> w_commit_now jwks_down"
    by (simp add: sample_defs)
  have b2: "refreshCache jwks_down never_fetched =
        (fst (refreshCache jwks_down never_fetched),
         fst (snd (refreshCache jwks_down never_fetched)),
         snd (snd (refreshCache jwks_down never_fetched)))"
    by simp
  have b3: "hop_fails (w_hop2 jwks_down)"
    by (simp add: hop_fails_def sample_defs)
  from refresh_success_replaces_keys [OF a1 a2] refresh_success_replaces_keys [OF b1 b2]
    a1 a2 a3 b1 b3
  show ?thesis by blast
qed

subsection \<open>C3: a missing key is \<^verbatim>\<open>null\<close>, never an exception\<close>

text \<open>
  C3, evaluated where the code departs from it. Both hops succeed and the key set is
  \<^verbatim>\<open>{"keys":[null]}\<close>: the list is cached, no cached record has the queried \<^verbatim>\<open>kid\<close>, and
  the search throws a \<^verbatim>\<open>TypeError\<close> at the element instead of handing \<^verbatim>\<open>null\<close> to the
  callback. A second call within the freshness window throws again, without a request.
  (\<open>getKey_on_records\<close> is the claim for caches that hold key objects only.)
\<close>

theorem getKey_null_element_throws:
  "getKey sample_libs null_key_jwks never_fetched ''abc'' =
     (Inl TypeError,
      \<lparr>url = ''https://login/discovery'', lastUpdated = 500000250, keys = Some [None],
       issuer = Some ''https://login/{tenantid}/v2''\<rparr>,
      [HttpGet (Some ''https://login/discovery''), HttpGet (Some ''https://login/keys'')])
   \<and> getKey sample_libs (all_up 500001000)
       \<lparr>url = ''https://login/discovery'', lastUpdated = 500000250, keys = Some [None],
        issuer = Some ''https://login/{tenantid}/v2''\<rparr> ''abc'' =
     (Inl TypeError,
      \<lparr>url = ''https://login/discovery'', lastUpdated = 500000250, keys = Some [None],
       issuer = Some ''https://login/{tenantid}/v2''\<rparr>,
      [])"
  by (simp add: getKey_def refreshCache_def checked_def findKey_def sample_defs)

subsection \<open>C4: the freshness boundary\<close>

text \<open>
  C4. With \<^verbatim>\<open>lastUpdated\<close> equal to \<open>T\<close>, a call at \<open>T\<close> plus five days minus one
  millisecond issues no request and searches the cache as it is; a call at \<open>T\<close> plus five
  days plus one millisecond first refreshes, starting with the GET of the discovery URL,
  and searches the cache the refresh left. Five days are \<open>1000 * 60 * 60 * 24 * 5\<close>
  milliseconds, that is 432000000.
\<close>

theorem freshness_boundary:
  assumes "lastUpdated st = T"
    and "w_now w1 = T + 1000 * 60 * 60 * 24 * 5 - 1"
    and "w_now w2 = T + 1000 * 60 * 60 * 24 * 5 + 1"
  shows "getKey L w1 st keyId = (findKey L st keyId, st, [])
       \<and> (\<exists>e st' tr. refreshCache w2 st = (e, st', HttpGet (Some (url st)) # tr)
             \<and> getKey L w2 st keyId =
                 (findKey L st' keyId, st',
                  HttpGet (Some (url st)) # tr
                    @ (case e of Some er \<Rightarrow> [ConsoleError (url st) er] | None \<Rightarrow> [])))
       \<and> (1000 * 60 * 60 * 24 * 5 :: int) = 432000000"
proof (intro conjI)
  have "\<not> lastUpdated st < w_now w1 - 432000000" using assms(1,2) by simp
  then show "getKey L w1 st keyId = (findKey L st keyId, st, [])" by (rule getKey_fresh)
next
  have stale: "lastUpdated st < w_now w2 - 432000000" using assms(1,3) by simp
  obtain e st' tr where rc: "refreshCache w2 st = (e, st', HttpGet (Some (url st)) # tr)"
  proof (cases rule: refreshCache_cases [of w2])
    case hop1
    from refreshCache_hop1_fails [OF hop1, of st] that show ?thesis by blast
  next
    case (hop2 cfg)
    from refreshCache_hop2_fails [OF hop2, of st] that show ?thesis by blast
  next
    case (ok cfg b)
    from refreshCache_both_ok [OF ok, of st] that show ?thesis by blast
  qed
  from getKey_stale [OF stale rc, of L keyId] rc
  show "\<exists>e st' tr. refreshCache w2 st = (e, st', HttpGet (Some (url st)) # tr)
             \<and> getKey L w2 st keyId =
                 (findKey L st' keyId, st',
                  HttpGet (Some (url st)) # tr
                    @ (case e of Some er \<Rightarrow> [ConsoleError (url st) er] | None \<Rightarrow> []))"
    by auto
next
  show "(1000 * 60 * 60 * 24 * 5 :: int) = 432000000" by simp
qed

text \<open>
  C4, witness: a cache loaded at time 1000, asked at 432000999 and at 432001001 while both
  endpoints answer.
\<close>

theorem freshness_boundary_witness:
  "lastUpdated (loaded_state [] ''iss'') = 1000
   \<and> w_now (all_up 432000999) = 1000 + 1000 * 60 * 60 * 24 * 5 - 1
   \<and> w_now (all_up 432001001) = 1000 + 1000 * 60 * 60 * 24 * 5 + 1
   \<and> getKey sample_libs (all_up 432000999) (loaded_state [] ''iss'') ''abc''
       = (Inr None, loaded_state [] ''iss'', [])
   \<and> getKey sample_libs (all_up 432001001) (loaded_state [] ''iss'') ''abc''
       = (Inr (Some \<lparr>key = ''PEM AQAB AQAB'', endorsements = None\<rparr>),
          \<lparr>url = ''https://login/discovery'', lastUpdated = 432001251, keys = Some [Some rsa_key],
           issuer = Some ''https://login/{tenantid}/v2''\<rparr>,
          [HttpGet (Some ''https://login/discovery''), HttpGet (Some ''https://login/keys'')])"
proof -
  have h1: "lastUpdated (loaded_state [] ''iss'') = 1000"
    by (simp add: sample_defs)
  have h2: "w_now (all_up 432000999) = 1000 + 1000 * 60 * 60 * 24 * 5 - 1"
    by (simp add: sample_defs)
  have h3: "w_now (all_up 432001001) = 1000 + 1000 * 60 * 60 * 24 * 5 + 1"
    by (simp add: sample_defs)
  have g: "getKey sample_libs (all_up 432001001) (loaded_state [] ''iss'') ''abc''
       = (Inr (Some \<lparr>key = ''PEM AQAB AQAB'', endorsements = None\<rparr>),
          \<lparr>url = ''https://login/discovery'', lastUpdated = 432001251, keys = Some [Some rsa_key],
           issuer = Some ''https://login/{tenantid}/v2''\<rparr>,
          [HttpGet (Some ''https://login/discovery''), HttpGet (Some ''https://login/keys'')])"
    by (simp add: getKey_def refreshCache_def checked_def findKey_def sample_defs)
  have f: "findKey sample_libs (loaded_state [] ''iss'') ''abc'' = Inr None"
    by (simp add: findKey_def sample_defs)
  from freshness_boundary [OF h1 h2 h3, of sample_libs "''abc''"] h1 h2 h3 g f
  show ?thesis by simp
qed

subsection \<open>C5: the issuer template\<close>

text \<open>
  C5, evaluated where the code departs from it: for the cached template
  \<^verbatim>\<open>https://login/{tenantid}/v2\<close> and the tenant identifier \<^verbatim>\<open>$&\<close>, \<^verbatim>\<open>getIssuer\<close> returns
  the template with the placeholder still in it, since \<^verbatim>\<open>replace\<close> reads \<^verbatim>\<open>$&\<close> in its
  second argument as the matched text. (\<open>getIssuer_substitutes_first\<close> is the substitution
  for identifiers without \<^verbatim>\<open>$\<close>, \<open>getIssuer_throws_iff\<close> and \<open>getIssuer_new\<close> the
  error.)
\<close>

theorem getIssuer_expands_dollar_ampersand:
  "getIssuer (loaded_state [Some rsa_key] ''https://login/{tenantid}/v2'') ''$&''
     = Inr ''https://login/{tenantid}/v2''"
  by (simp add: getIssuer_def loaded_state_def js_replace_def)

subsection \<open>C6: the first hop fails\<close>

text \<open>
  C6. In a refresh whose first hop fails (transport error, status of 400 or more, or
  falsy body) the callback receives an error, only the discovery URL is requested, and
  \<^verbatim>\<open>keys\<close>, \<^verbatim>\<open>lastUpdated\<close> and \<^verbatim>\<open>issuer\<close> keep their values; so a \<^verbatim>\<open>getIssuer\<close> that threw
  before the refresh throws after it.
\<close>

theorem refresh_hop1_failure_frame:
  assumes "hop_fails (w_hop1 w)" and "refreshCache w st = (e, st', tr)"
  shows "e \<noteq> None \<and> tr = [HttpGet (Some (url st))]
       \<and> keys st' = keys st \<and> lastUpdated st' = lastUpdated st \<and> issuer st' = issuer st
       \<and> (getIssuer st tenantId = Inl ConfigurationNotFetched
            \<longrightarrow> getIssuer st' tenantId = Inl ConfigurationNotFetched)"
  using refreshCache_hop1_fails [OF assms(1), of st] assms(2) by auto

text \<open>
  C6, witness: the discovery endpoint answers 503 to an object that never fetched
  anything.
\<close>

theorem refresh_hop1_failure_frame_witness:
  "hop_fails (w_hop1 discovery_down)
   \<and> refreshCache discovery_down never_fetched =
       (Some (FailedToLoadOpenIDConfig 503), never_fetched,
        [HttpGet (Some ''https://login/discovery'')])
   \<and> getIssuer never_fetched ''tenant1'' = Inl ConfigurationNotFetched"
proof -
  have h1: "hop_fails (w_hop1 discovery_down)"
    by (simp add: hop_fails_def sample_defs)
  have h2: "refreshCache discovery_down never_fetched =
       (Some (FailedToLoadOpenIDConfig 503), never_fetched,
        [HttpGet (Some ''https://login/discovery'')])"
    by (simp add: refreshCache_def checked_def sample_defs)
  have h3: "getIssuer never_fetched ''tenant1'' = Inl ConfigurationNotFetched"
    by (simp add: getIssuer_def sample_defs)
  from refresh_hop1_failure_frame [OF h1 h2, of "''tenant1''"] h1 h2 h3
  show ?thesis by simp
qed

subsection \<open>C7: a matching record that is not an RSA key\<close>




subsection \<open>C8: two lookups within the freshness window\<close>

text \<open>
  C8. Two calls for the same \<^verbatim>\<open>kid\<close>, both at times within five days of \<^verbatim>\<open>lastUpdated\<close>,
  the second on the object as the first left it: both have the same outcome (the same
  value handed to the callback), neither issues a request or logs, and the object is
  unchanged.
\<close>

theorem getKey_idempotent_within_window:
  assumes "w_now w1 - lastUpdated st \<le> 432000000"
    and "w_now w2 - lastUpdated st \<le> 432000000"
    and "getKey L w1 st keyId = (r1, st1, tr1)"
    and "getKey L w2 st1 keyId = (r2, st2, tr2)"
  shows "r1 = r2 \<and> tr1 = [] \<and> tr2 = [] \<and> st1 = st \<and> st2 = st"
proof -
  have f1: "\<not> lastUpdated st < w_now w1 - 432000000" using assms(1) by simp
  have f2: "\<not> lastUpdated st < w_now w2 - 432000000" using assms(2) by simp
  from getKey_fresh [OF f1, of L keyId] assms(3)
  have 1: "r1 = findKey L st keyId" "st1 = st" "tr1 = []" by auto
  from getKey_fresh [OF f2, of L keyId] assms(4) 1(2)
  have 2: "r2 = findKey L st keyId" "st2 = st" "tr2 = []" by auto
  from 1 2 show ?thesis by simp
qed

text \<open>C8, witness: a cache loaded at time 1000, asked for the same key at 2000 and at 3000.\<close>

theorem getKey_idempotent_within_window_witness:
  "w_now (all_up 2000) - lastUpdated (loaded_state [Some rsa_key] ''iss'') \<le> 432000000
   \<and> w_now (all_up 3000) - lastUpdated (loaded_state [Some rsa_key] ''iss'') \<le> 432000000
   \<and> getKey sample_libs (all_up 2000) (loaded_state [Some rsa_key] ''iss'') ''abc''
       = (Inr (Some \<lparr>key = ''PEM AQAB AQAB'', endorsements = None\<rparr>),
          loaded_state [Some rsa_key] ''iss'', [])
   \<and> getKey sample_libs (all_up 3000) (loaded_state [Some rsa_key] ''iss'') ''abc''
       = (Inr (Some \<lparr>key = ''PEM AQAB AQAB'', endorsements = None\<rparr>),
          loaded_state [Some rsa_key] ''iss'', [])"
proof -
  have h1: "w_now (all_up 2000) - lastUpdated (loaded_state [Some rsa_key] ''iss'') \<le> 432000000"
    by (simp add: sample_defs)
  have h2: "w_now (all_up 3000) - lastUpdated (loaded_state [Some rsa_key] ''iss'') \<le> 432000000"
    by (simp add: sample_defs)
  have h3: "getKey sample_libs (all_up 2000) (loaded_state [Some rsa_key] ''iss'') ''abc''
       = (Inr (Some \<lparr>key = ''PEM AQAB AQAB'', endorsements = None\<rparr>),
          loaded_state [Some rsa_key] ''iss'', [])"
    by (simp add: getKey_def findKey_def sample_defs)
  have h4: "getKey sample_libs (all_up 3000) (loaded_state [Some rsa_key] ''iss'') ''abc''
       = (Inr (Some \<lparr>key = ''PEM AQAB AQAB'', endorsements = None\<rparr>),
          loaded_state [Some rsa_key] ''iss'', [])"
    by (simp add: getKey_def findKey_def sample_defs)
  from getKey_idempotent_within_window [OF h1 h2 h3 h4] h1 h2 h3 h4
  show ?thesis by simp
qed

subsection \<open>C9: an empty issuer in the discovery document\<close>

text \<open>
  C9. After a refresh whose first hop succeeds with a body whose \<^verbatim>\<open>issuer\<close> is the empty
  string, \<^verbatim>\<open>getIssuer\<close> throws the not-configured error, whatever the second hop does.
\<close>

theorem empty_issuer_still_not_configured:
  assumes "hop_ok (w_hop1 w) cfg" and "cfg_issuer cfg = Some []"
    and "refreshCache w st = (e, st', tr)"
  shows "getIssuer st' tenantId = Inl ConfigurationNotFetched"
proof (cases rule: refreshCache_cases [of w])
  case hop1
  with assms(1) show ?thesis by (simp add: hop_fails_iff)
next
  case (hop2 cfg')
  with assms(1) have "cfg' = cfg" by (simp add: hop_ok_def)
  with hop2 refreshCache_hop2_fails [of w cfg st] assms(2,3) show ?thesis
    by (auto simp: getIssuer_def)
next
  case (ok cfg' b)
  with assms(1) have "cfg' = cfg" by (simp add: hop_ok_def)
  with ok refreshCache_both_ok [of w cfg b st] assms(2,3) show ?thesis
    by (auto simp: getIssuer_def)
qed

text \<open>
  C9, witness: both endpoints answer, the discovery document has the issuer \<^verbatim>\<open>""\<close>, and
  the object had a usable issuer before.
\<close>

theorem empty_issuer_still_not_configured_witness:
  "hop_ok (w_hop1 (world_at 500000000 (ok_reply (sample_config [])) (ok_reply \<lparr>body_keys = Some [Some rsa_key]\<rparr>)))
     (sample_config [])
   \<and> cfg_issuer (sample_config []) = Some []
   \<and> getIssuer (loaded_state [] ''https://login/{tenantid}/v2'') ''tenant1''
       = Inr ''https://login/tenant1/v2''
   \<and> getIssuer
       (fst (snd (refreshCache
          (world_at 500000000 (ok_reply (sample_config [])) (ok_reply \<lparr>body_keys = Some [Some rsa_key]\<rparr>))
          (loaded_state [] ''https://login/{tenantid}/v2''))))
       ''tenant1''
       = Inl ConfigurationNotFetched"
proof -
  let ?w = "world_at 500000000 (ok_reply (sample_config [])) (ok_reply \<lparr>body_keys = Some [Some rsa_key]\<rparr>)"
  let ?st = "loaded_state [] ''https://login/{tenantid}/v2''"
  have h1: "hop_ok (w_hop1 ?w) (sample_config [])"
    by (simp add: hop_ok_def sample_defs)
  have h2: "cfg_issuer (sample_config []) = Some []"
    by (simp add: sample_defs)
  have h3: "refreshCache ?w ?st =
      (fst (refreshCache ?w ?st), fst (snd (refreshCache ?w ?st)), snd (snd (refreshCache ?w ?st)))"
    by simp
  have h4: "getIssuer ?st ''tenant1'' = Inr ''https://login/tenant1/v2''"
    by (simp add: getIssuer_def loaded_state_def js_replace_def)
  from empty_issuer_still_not_configured [OF h1 h2 h3, of "''tenant1''"] h1 h2 h4
  show ?thesis by simp
qed

subsection \<open>C10: a template with the placeholder twice\<close>

text \<open>
  C10, evaluated where the code departs from it: for the cached template
  \<^verbatim>\<open>https://login/{tenantid}/{tenantid}\<close> and the tenant identifier \<^verbatim>\<open>$$\<close>, the second
  placeholder stays as it is and the first becomes \<^verbatim>\<open>$\<close>, not the identifier, since
  \<^verbatim>\<open>replace\<close> reads \<^verbatim>\<open>$$\<close> in its second argument as one \<^verbatim>\<open>$\<close>.
  (\<open>getIssuer_substitutes_first\<close> is the claim for identifiers without \<^verbatim>\<open>$\<close>;
  \<open>js_replace_keeps_rest\<close> shows that the text after the first occurrence always stays.)
\<close>

theorem getIssuer_dollar_dollar_first_occurrence:
  "getIssuer (loaded_state [Some rsa_key] ''https://login/{tenantid}/{tenantid}'') ''$$''
     = Inr ''https://login/$/{tenantid}''"
  by (simp add: getIssuer_def loaded_state_def js_replace_def)

end
